theory Spec2Isabelle
  imports Complex_Main "HOL-Library.Word" "HOL-Library.Monad_Syntax"
begin

unbundle bit_operations_syntax

section \<open>JavaScript values used by the http module\<close>

text \<open>
  A JavaScript string is the list of its UTF-16 code units, so \<open>s.length\<close> is the length
  of the list.  A byte is a \<^typ>\<open>char\<close>; byte arrays and the socket's streams are lists
  of bytes.  JavaScript numbers that the code only uses as integers are \<^typ>\<open>int\<close>.

  The bitwise operators of JavaScript convert their operands to 32-bit integers and take
  the shift count modulo 32.
\<close>

type_synonym js_string = "16 word list"

type_synonym bytes = "char list"

definition js_and :: "int \<Rightarrow> int \<Rightarrow> int" where
  "js_and a b = sint ((word_of_int a :: 32 word) AND word_of_int b)"

definition js_or :: "int \<Rightarrow> int \<Rightarrow> int" where
  "js_or a b = sint ((word_of_int a :: 32 word) OR word_of_int b)"

definition js_xor :: "int \<Rightarrow> int \<Rightarrow> int" where
  "js_xor a b = sint ((word_of_int a :: 32 word) XOR word_of_int b)"

definition js_shl :: "int \<Rightarrow> int \<Rightarrow> int" where
  "js_shl a k = sint (push_bit (nat (k mod 32)) (word_of_int a :: 32 word))"

definition js_sar :: "int \<Rightarrow> int \<Rightarrow> int" where
  "js_sar a k = sint (signed_drop_bit (nat (k mod 32)) (word_of_int a :: 32 word))"

text \<open>\<open>String.fromCharCode(n)\<close> is the code unit \<open>n\<close> modulo \<open>2 ^ 16\<close>.\<close>

definition fromCharCode :: "int \<Rightarrow> 16 word" where
  "fromCharCode n = word_of_int n"

section \<open>The socket streams\<close>

text \<open>
  Modelled from the spec: the byte-stream transport (\<open>InputStream\<close>, \<open>OutputStream\<close>) is
  not part of the sources.  An input stream is the bytes still to come; reading past its
  end raises, which is the value \<open>None\<close>.  \<open>readByte\<close> yields the next byte as a number
  from 0 to 255.  The socket's output stream is the bytes written so far, and \<open>write\<close> of
  a number appends its low eight bits.
\<close>

definition readByte :: "bytes \<Rightarrow> (int \<times> bytes) option" where
  "readByte inp = (case inp of [] \<Rightarrow> None | c # rest \<Rightarrow> Some (of_char c, rest))"

definition os_write :: "bytes \<Rightarrow> int \<Rightarrow> bytes" where
  "os_write os b = os @ [char_of b]"

section \<open>WebSocket frames (WebSocket.js)\<close>

subsection \<open>Encoding: \<open>rawSendMessage\<close>, \<open>rawSendPing\<close>, \<open>rawSendPong\<close>\<close>

text \<open>
  \<open>decaf.toJavaByteArray\<close> is not part of the sources: it is a parameter of the encoder,
  the function that gives the bytes of a string in some character encoding.  The length
  that \<open>rawSendMessage\<close> announces is \<open>s.length\<close>, not the number of these bytes.
\<close>

definition rawSendMessage :: "(js_string \<Rightarrow> bytes) \<Rightarrow> bytes \<Rightarrow> js_string \<Rightarrow> bytes" where
  "rawSendMessage toJavaByteArray os s =
    (let len = int (length s);
         os = os_write os 0x81;
         os = (if len < 126 then os_write os len
               else if len < 65536 then
                 (let os = os_write os 0x7e;
                      os = os_write os (js_and (js_sar len 8) 0xff)
                  in os_write os (js_and len 0xff))
               else
                 (let os = os_write os 0x7f;
                      os = os_write os (js_and (js_sar len 56) 0xff);
                      os = os_write os (js_and (js_sar len 48) 0xff);
                      os = os_write os (js_and (js_sar len 40) 0xff);
                      os = os_write os (js_and (js_sar len 32) 0xff);
                      os = os_write os (js_and (js_sar len 24) 0xff);
                      os = os_write os (js_and (js_sar len 16) 0xff);
                      os = os_write os (js_and (js_sar len 8) 0xff)
                  in os_write os (js_and (js_sar len 0) 0xff)))
     in os @ toJavaByteArray s)"

definition rawSendPing :: "bytes \<Rightarrow> bytes" where
  "rawSendPing os = os_write (os_write os 0x89) 0"

definition rawSendPong :: "bytes \<Rightarrow> bytes" where
  "rawSendPong os = os_write (os_write os 0x8a) 0"

subsection \<open>Decoding: \<open>getMessage\<close>\<close>

text \<open>The loop \<open>for (i = 0; i < 8; i++) { len = len << 8; len |= next(); }\<close>,
  by the number of rounds still to run.\<close>

fun ext_len_loop :: "nat \<Rightarrow> int \<Rightarrow> bytes \<Rightarrow> (int \<times> bytes) option" where
  "ext_len_loop 0 len inp = Some (len, inp)"
| "ext_len_loop (Suc n) len inp =
    (case readByte inp of
       None \<Rightarrow> None
     | Some (b, inp') \<Rightarrow> ext_len_loop n (js_or (js_shl len 8) b) inp')"

text \<open>The two payload loops \<open>for (i = 0; i < len; i++)\<close>, by the number of bytes
  still to read.\<close>

fun masked_payload :: "nat \<Rightarrow> int list \<Rightarrow> nat \<Rightarrow> js_string \<Rightarrow> bytes \<Rightarrow> (js_string \<times> bytes) option" where
  "masked_payload 0 msk ndx message inp = Some (message, inp)"
| "masked_payload (Suc n) msk ndx message inp =
    (case readByte inp of
       None \<Rightarrow> None
     | Some (b, inp') \<Rightarrow>
         masked_payload n msk ((ndx + 1) mod 4)
           (message @ [fromCharCode (js_xor b (msk ! ndx))]) inp')"

fun plain_payload :: "nat \<Rightarrow> js_string \<Rightarrow> bytes \<Rightarrow> (js_string \<times> bytes) option" where
  "plain_payload 0 message inp = Some (message, inp)"
| "plain_payload (Suc n) message inp =
    (case readByte inp of
       None \<Rightarrow> None
     | Some (b, inp') \<Rightarrow> plain_payload n (message @ [fromCharCode b]) inp')"

text \<open>One frame after its first byte: the length byte, the extended length, the mask
  and the payload.\<close>

definition frame_length :: "int \<Rightarrow> bytes \<Rightarrow> (int \<times> bytes) option" where
  "frame_length len0 inp =
    (if js_and len0 0x7f = 0x7e then
       do {
         (hi, inp1) \<leftarrow> readByte inp;
         (lo, inp2) \<leftarrow> readByte inp1;
         Some (js_or (js_shl hi 8) lo, inp2)
       }
     else if js_and len0 0x7f = 0x7f then ext_len_loop 8 0 inp
     else Some (js_and len0 0x7f, inp))"

definition frame_payload :: "int \<Rightarrow> int \<Rightarrow> js_string \<Rightarrow> bytes \<Rightarrow> (js_string \<times> bytes) option" where
  "frame_payload len0 len message inp =
    (if js_and len0 0x80 \<noteq> 0 then
       do {
         (m0, inp1) \<leftarrow> readByte inp;
         (m1, inp2) \<leftarrow> readByte inp1;
         (m2, inp3) \<leftarrow> readByte inp2;
         (m3, inp4) \<leftarrow> readByte inp3;
         masked_payload (nat len) [m0, m1, m2, m3] 0 message inp4
       }
     else plain_payload (nat len) message inp)"

text \<open>The result is the frame's length, the message so far and the rest of the stream.\<close>

definition frame_body :: "js_string \<Rightarrow> bytes \<Rightarrow> (int \<times> js_string \<times> bytes) option" where
  "frame_body message inp =
    do {
      (len0, inp1) \<leftarrow> readByte inp;
      (len, inp2) \<leftarrow> frame_length len0 inp1;
      (message', inp3) \<leftarrow> frame_payload len0 len message inp2;
      Some (len, message', inp3)
    }"

lemma readByte_shorter: "readByte inp = Some (b, inp') \<Longrightarrow> length inp' < length inp"
  by (auto simp: readByte_def split: list.splits)

lemma ext_len_loop_shorter: "ext_len_loop n len inp = Some (l, inp') \<Longrightarrow> length inp' \<le> length inp"
proof (induction n arbitrary: len inp)
  case 0
  then show ?case by simp
next
  case (Suc n)
  then show ?case
    by (fastforce split: option.splits dest: readByte_shorter)
qed

lemma masked_payload_shorter:
  "masked_payload n msk ndx message inp = Some (m, inp') \<Longrightarrow> length inp' \<le> length inp"
proof (induction n arbitrary: ndx message inp)
  case 0
  then show ?case by simp
next
  case (Suc n)
  then show ?case
    by (fastforce split: option.splits dest: readByte_shorter)
qed

lemma plain_payload_shorter:
  "plain_payload n message inp = Some (m, inp') \<Longrightarrow> length inp' \<le> length inp"
proof (induction n arbitrary: message inp)
  case 0
  then show ?case by simp
next
  case (Suc n)
  then show ?case
    by (fastforce split: option.splits dest: readByte_shorter)
qed

lemma frame_length_shorter:
  "frame_length len0 inp = Some (len, inp') \<Longrightarrow> length inp' \<le> length inp"
  unfolding frame_length_def
  by (auto split: if_splits bind_splits dest!: readByte_shorter ext_len_loop_shorter)

lemma frame_payload_shorter:
  "frame_payload len0 len message inp = Some (m, inp') \<Longrightarrow> length inp' \<le> length inp"
  unfolding frame_payload_def
  by (auto split: if_splits bind_splits
      dest!: readByte_shorter masked_payload_shorter plain_payload_shorter)

lemma frame_body_shorter:
  assumes "frame_body message inp = Some (len, message', inp')"
  shows "length inp' < length inp"
proof -
  from assms obtain len0 inp1 inp2 where
    r0: "readByte inp = Some (len0, inp1)" and
    r1: "frame_length len0 inp1 = Some (len, inp2)" and
    r2: "frame_payload len0 len message inp2 = Some (message', inp')"
    by (auto simp: frame_body_def split: bind_splits)
  have "length inp1 < length inp"
    using r0 by (rule readByte_shorter)
  moreover have "length inp2 \<le> length inp1"
    using r1 by (rule frame_length_shorter)
  moreover have "length inp' \<le> length inp2"
    using r2 by (rule frame_payload_shorter)
  ultimately show ?thesis by simp
qed

text \<open>
  The loop \<open>while (!fin)\<close> of \<open>getMessage\<close>, with the \<open>try\<close> around it: any exception
  (here: the end of the stream) makes the result \<open>false\<close>, the value \<open>None\<close>.  The result
  also carries what is left of the input stream and the output stream, to which a ping
  adds a pong.
\<close>

function getMessage_loop :: "js_string \<Rightarrow> bool \<Rightarrow> bytes \<Rightarrow> bytes \<Rightarrow> js_string option \<times> bytes \<times> bytes" where
  "getMessage_loop message fin inp os =
    (if fin then (Some message, inp, os)
     else
       (case readByte inp of
          None \<Rightarrow> (None, [], os)
        | Some (b, inp1) \<Rightarrow>
            if js_and b 0x7f = 0x8 then (None, inp1, os)
            else
              (case frame_body message inp1 of
                 None \<Rightarrow> (None, [], if js_and b 0x7f = 0x9 then rawSendPong os else os)
               | Some (len, message', inp2) \<Rightarrow>
                   getMessage_loop message'
                     (if len = 0 then False else js_and b 0x80 \<noteq> 0)
                     inp2
                     (if js_and b 0x7f = 0x9 then rawSendPong os else os))))"
  by pat_completeness auto
termination
proof (relation "measure (\<lambda>(message, fin, inp, os). length inp)")
  show "wf (measure (\<lambda>(message, fin, inp, os). length inp))"
    by simp
next
  fix message :: js_string and fin :: bool and inp os :: bytes
    and x2 :: "int \<times> bytes" and b :: int and inp1 :: bytes
    and x2a :: "int \<times> js_string \<times> bytes" and len :: int and y :: "js_string \<times> bytes"
    and message' :: js_string and inp2 :: bytes
  assume "readByte inp = Some x2" "(b, inp1) = x2"
    "frame_body message inp1 = Some x2a" "(len, y) = x2a" "(message', inp2) = y"
  then have "length inp1 < length inp" "length inp2 < length inp1"
    by (auto dest: readByte_shorter frame_body_shorter)
  then show "((message', (if len = 0 then False else js_and b 0x80 \<noteq> 0), inp2,
        (if js_and b 0x7f = 0x9 then rawSendPong os else os)),
      (message, fin, inp, os)) \<in> measure (\<lambda>(message, fin, inp, os). length inp)"
    by simp
qed

declare getMessage_loop.simps [simp del]

definition getMessage :: "bytes \<Rightarrow> bytes \<Rightarrow> js_string option \<times> bytes \<times> bytes" where
  "getMessage inp os = getMessage_loop [] False inp os"

subsection \<open>A byte encoding of strings\<close>

text \<open>
  UTF-8, the encoding that the text frames of RFC 6455 carry, as one instance of the
  encoder's parameter.  A surrogate pair is one code point of four bytes; a surrogate
  without its partner is written as a question mark.
\<close>

definition utf8_unit :: "16 word \<Rightarrow> bytes" where
  "utf8_unit u =
    (let n = unat u in
     if n < 0x80 then [char_of n]
     else if n < 0x800 then [char_of (0xC0 + n div 64), char_of (0x80 + n mod 64)]
     else if 0xD800 \<le> n \<and> n < 0xE000 then [CHR ''?'']
     else [char_of (0xE0 + n div 4096), char_of (0x80 + n div 64 mod 64), char_of (0x80 + n mod 64)])"

definition utf8_pair :: "16 word \<Rightarrow> 16 word \<Rightarrow> bytes" where
  "utf8_pair u v =
    (let n = 0x10000 + (unat u - 0xD800) * 1024 + (unat v - 0xDC00) in
     [char_of (0xF0 + n div 262144), char_of (0x80 + n div 4096 mod 64),
      char_of (0x80 + n div 64 mod 64), char_of (0x80 + n mod 64)])"

fun utf8 :: "js_string \<Rightarrow> bytes" where
  "utf8 [] = []"
| "utf8 [u] = utf8_unit u"
| "utf8 (u # v # vs) =
    (if 0xD800 \<le> unat u \<and> unat u < 0xDC00 \<and> 0xDC00 \<le> unat v \<and> unat v < 0xE000
     then utf8_pair u v @ utf8 vs
     else utf8_unit u @ utf8 (v # vs))"

section \<open>Exceptions\<close>

text \<open>
  What the code throws: the three strings it uses as signals, Java exceptions (which have
  a \<open>dumpText\<close> method), \<open>Error\<close> objects with their message, and any other value.
\<close>

datatype exn =
    EOF
  | THREAD_EXIT
  | RES_STOP
  | JavaException string
  | Error string
  | Thrown string

text \<open>The result of a statement: it completes, or it throws.\<close>

datatype outcome = Normal | Raised exn

text \<open>\<open>try { body } finally { cleanup }\<close>: an exception of the cleanup replaces the
  result of the body.\<close>

definition finally_outcome :: "outcome \<Rightarrow> outcome \<Rightarrow> outcome" where
  "finally_outcome body cleanup = (case cleanup of Raised e \<Rightarrow> Raised e | Normal \<Rightarrow> body)"

section \<open>The message loop of a WebSocket (WebSocket.js, \<open>run\<close>)\<close>

text \<open>
  A WebSocket has its identifier, the URI of its request and the listeners that the
  application has set: \<open>onmessage\<close> and the listeners of the \<open>message\<close> event, \<open>onclose\<close>
  and the listeners of the \<open>close\<close> event.  A listener is given by what it throws, if
  anything.  The registry \<open>webSockets\<close> maps identifiers to WebSockets.
\<close>

record websocket =
  uuid :: js_string
  req_uri :: js_string
  onmessage :: "js_string \<Rightarrow> exn option"
  fire_message :: "js_string \<Rightarrow> exn option"
  onclose :: "exn option"
  fire_close :: "exn option"

type_synonym registry = "js_string \<Rightarrow> websocket option"

text \<open>The calls of the listeners, each with the registry as it is at the call.\<close>

datatype ws_event = Message js_string registry | Close registry

record run_state =
  is_bytes :: bytes
  os_bytes :: bytes
  webSockets :: registry
  events :: "ws_event list"

text \<open>
  The body of the inner \<open>try\<close>: \<open>me.onmessage(message); me.fire('message', message)\<close>.
\<close>

definition deliver :: "websocket \<Rightarrow> js_string \<Rightarrow> outcome" where
  "deliver ws message =
    (case onmessage ws message of
       Some e \<Rightarrow> Raised e
     | None \<Rightarrow> (case fire_message ws message of Some e \<Rightarrow> Raised e | None \<Rightarrow> Normal))"

lemma getMessage_loop_shorter:
  "getMessage_loop message fin i os = (r, i', os') \<Longrightarrow> length i' \<le> length i"
proof (induction message fin i os rule: getMessage_loop.induct)
  case (1 message fin i os)
  show ?case
  proof (cases fin)
    case True
    with "1.prems" show ?thesis
      by (subst (asm) getMessage_loop.simps) simp
  next
    case False
    show ?thesis
    proof (cases "readByte i")
      case None
      with False "1.prems" show ?thesis
        by (subst (asm) getMessage_loop.simps) simp
    next
      case (Some x)
      then obtain b i1 where rb: "readByte i = Some (b, i1)"
        by (cases x) auto
      then have s1: "length i1 < length i"
        by (rule readByte_shorter)
      show ?thesis
      proof (cases "js_and b 0x7f = 0x8")
        case True
        with False rb "1.prems" s1 show ?thesis
          by (subst (asm) getMessage_loop.simps) auto
      next
        case nc: False
        show ?thesis
        proof (cases "frame_body message i1")
          case None
          with False rb nc "1.prems" show ?thesis
            by (subst (asm) getMessage_loop.simps) auto
        next
          case (Some y)
          then obtain len message' i2 where fb: "frame_body message i1 = Some (len, message', i2)"
            by (cases y) auto
          then have s2: "length i2 < length i1"
            by (rule frame_body_shorter)
          from "1.prems" False rb nc fb
          have "getMessage_loop message' (if len = 0 then False else js_and b 0x80 \<noteq> 0) i2
              (if js_and b 0x7f = 0x9 then rawSendPong os else os) = (r, i', os')"
            by (subst (asm) getMessage_loop.simps) simp
          then have "length i' \<le> length i2"
            using "1.IH" [OF False rb refl nc fb refl refl] by simp
          with s1 s2 show ?thesis by simp
        qed
      qed
    qed
  qed
qed

lemma getMessage_Some_shorter:
  assumes "getMessage i os = (Some message, i', os')"
  shows "length i' < length i"
proof -
  from assms have g: "getMessage_loop [] False i os = (Some message, i', os')"
    by (simp add: getMessage_def)
  show ?thesis
  proof (cases "readByte i")
    case None
    with g show ?thesis
      by (subst (asm) getMessage_loop.simps) simp
  next
    case (Some x)
    then obtain b i1 where rb: "readByte i = Some (b, i1)"
      by (cases x) auto
    then have s1: "length i1 < length i"
      by (rule readByte_shorter)
    show ?thesis
    proof (cases "js_and b 0x7f = 0x8")
      case True
      with rb g show ?thesis
        by (subst (asm) getMessage_loop.simps) simp
    next
      case nc: False
      show ?thesis
      proof (cases "frame_body [] i1")
        case None
        with rb nc g show ?thesis
          by (subst (asm) getMessage_loop.simps) simp
      next
        case (Some y)
        then obtain len message' i2 where fb: "frame_body [] i1 = Some (len, message', i2)"
          by (cases y) auto
        from g rb nc fb
        have "getMessage_loop message' (if len = 0 then False else js_and b 0x80 \<noteq> 0) i2
            (if js_and b 0x7f = 0x9 then rawSendPong os else os) = (Some message, i', os')"
          by (subst (asm) getMessage_loop.simps) simp
        then have "length i' \<le> length i2"
          by (rule getMessage_loop_shorter)
        with s1 frame_body_shorter [OF fb] show ?thesis by simp
      qed
    qed
  qed
qed

text \<open>
  The loop \<open>while ((message = me.getMessage(is)) !== false)\<close> with the \<open>try\<close> inside it:
  what a listener throws is given to \<open>console.exception\<close>, and the loop goes on unless
  that call throws itself (\<open>console\<close> is not part of the sources: a parameter).
\<close>

function message_loop :: "(exn \<Rightarrow> exn option) \<Rightarrow> websocket \<Rightarrow> run_state \<Rightarrow> outcome \<times> run_state" where
  "message_loop console_exception ws st =
    (case getMessage (is_bytes st) (os_bytes st) of
       (None, i, os) \<Rightarrow> (Normal, st\<lparr>is_bytes := i, os_bytes := os\<rparr>)
     | (Some message, i, os) \<Rightarrow>
         (let st' = st\<lparr>is_bytes := i, os_bytes := os,
                        events := events st @ [Message message (webSockets st)]\<rparr>
          in case deliver ws message of
               Normal \<Rightarrow> message_loop console_exception ws st'
             | Raised e \<Rightarrow>
                 (case console_exception e of
                    None \<Rightarrow> message_loop console_exception ws st'
                  | Some e' \<Rightarrow> (Raised e', st'))))"
  by pat_completeness auto
termination
  by (relation "measure (\<lambda>(c, ws, st). length (is_bytes st))")
     (auto dest: getMessage_Some_shorter [OF sym])

declare message_loop.simps [simp del]

text \<open>The inner \<open>try { me.onclose(); me.fire('close'); } finally { delete webSockets[me.uuid]; }\<close>\<close>

definition close_and_remove :: "websocket \<Rightarrow> run_state \<Rightarrow> outcome \<times> run_state" where
  "close_and_remove ws st =
    (let st' = st\<lparr>events := events st @ [Close (webSockets st)]\<rparr>;
         body = (case onclose ws of
                   Some e \<Rightarrow> Raised e
                 | None \<Rightarrow> (case fire_close ws of Some e \<Rightarrow> Raised e | None \<Rightarrow> Normal))
     in (finally_outcome body Normal, st'\<lparr>webSockets := (webSockets st')(uuid ws := None)\<rparr>))"

text \<open>\<open>run\<close>.  Setting the socket's timeout is a call of the transport.\<close>

definition run :: "(exn \<Rightarrow> exn option) \<Rightarrow> websocket \<Rightarrow> run_state \<Rightarrow> outcome \<times> run_state" where
  "run console_exception ws st =
    (let st1 = st\<lparr>webSockets := (webSockets st)(uuid ws \<mapsto> ws)\<rparr>;
         (body, st2) = message_loop console_exception ws st1;
         (cleanup, st3) = close_and_remove ws st2
     in (finally_outcome body cleanup, st3))"

section \<open>The response (Response.js)\<close>

text \<open>String literals of the code, as JavaScript strings.\<close>

definition js :: "string \<Rightarrow> js_string" where
  "js s = map of_char s"

text \<open>
  A header value is a string, a number, a \<open>Date\<close> object (given by its time in
  milliseconds) or the text that \<open>toGMTString\<close> gives for such a time.  The headers are
  the properties of a JavaScript object, in the order in which they were first set.
\<close>

datatype hval = HStr js_string | HNum int | HDate int | HGMT int

type_synonym headers = "(js_string \<times> hval) list"

fun set_header :: "headers \<Rightarrow> js_string \<Rightarrow> hval \<Rightarrow> headers" where
  "set_header [] k v = [(k, v)]"
| "set_header ((k', v') # hs) k v =
    (if k' = k then (k, v) # hs else (k', v') # set_header hs k v)"

definition truthy :: "hval option \<Rightarrow> bool" where
  "truthy v = (case v of
      None \<Rightarrow> False
    | Some (HStr s) \<Rightarrow> s \<noteq> []
    | Some (HNum n) \<Rightarrow> n \<noteq> 0
    | Some _ \<Rightarrow> True)"

record cookie =
  cookie_value :: js_string
  cookie_expires :: "js_string option"
  cookie_path :: "js_string option"
  cookie_domain :: "js_string option"

text \<open>
  Modelled from the spec: the \<open>OutputStream\<close> of the transport is not part of the
  sources.  It is the list of the calls made on it: the lines written (the status line,
  the date line, a header line and a cookie line are given by their parts, any other line
  by its text), the byte arrays written and the flushes.
\<close>

datatype os_call =
    StatusLine js_string int
  | DateLine
  | HeaderLine js_string hval
  | CookieLine js_string cookie
  | Writeln js_string
  | Bytes bytes
  | Flush

record response =
  res_os :: "os_call list"
  headersSent :: bool
  status :: int
  contentLength :: int
  cookies :: "(js_string \<times> cookie) list option"
  headers :: headers
  proto :: js_string
  chunked :: bool

text \<open>\<open>new Response(os, req)\<close>, for a request with the protocol \<open>req_proto\<close>.\<close>

definition Response :: "os_call list \<Rightarrow> js_string \<Rightarrow> response" where
  "Response os_log req_proto =
    \<lparr>res_os = os_log, headersSent = False, status = 200, contentLength = 0, cookies = None,
     headers = [], proto = req_proto, chunked = False\<rparr>"

definition flush :: "response \<Rightarrow> response" where
  "flush res = res\<lparr>res_os := res_os res @ [Flush]\<rparr>"

definition destroy :: "response \<Rightarrow> response" where
  "destroy res =
    (if chunked res
     then (flush (res\<lparr>res_os := res_os res @ [Writeln (js ''0''), Writeln []]\<rparr>))\<lparr>chunked := False\<rparr>
     else res\<lparr>chunked := False\<rparr>)"

definition sendHeaders :: "response \<Rightarrow> response" where
  "sendHeaders res =
    (if headersSent res then res
     else res\<lparr>res_os := res_os res
              @ [StatusLine (proto res) (status res), DateLine]
              @ map (\<lambda>(k, v). HeaderLine k v) (headers res)
              @ (case cookies res of
                   None \<Rightarrow> []
                 | Some cs \<Rightarrow>
                     if truthy (map_of (headers res) (js ''Set-Cookie'')) then []
                     else map (\<lambda>(k, c). CookieLine k c) cs)
              @ [Writeln []],
            headersSent := True\<rparr>)"

text \<open>\<open>res.stop()\<close> throws the string \<open>'RES.STOP'\<close>.\<close>

definition stop :: exn where
  "stop = RES_STOP"

subsection \<open>Dates and times\<close>

text \<open>
  The argument \<open>modifiedSince\<close>: nothing, a string, a number or a \<open>Date\<close> object (given by
  its time in milliseconds).  \<open>Date.parse\<close> is a parameter: it gives the time of a string in
  milliseconds, or \<open>NaN\<close>, the value \<open>None\<close>.
\<close>

datatype since = NoSince | SinceString js_string | SinceNumber int | SinceDate int

definition since_given :: "since \<Rightarrow> bool" where
  "since_given m = (case m of
      NoSince \<Rightarrow> False
    | SinceString s \<Rightarrow> s \<noteq> []
    | SinceNumber n \<Rightarrow> n \<noteq> 0
    | SinceDate _ \<Rightarrow> True)"

text \<open>\<open>parseInt(t / 1000, 10)\<close> for a time \<open>t\<close> in milliseconds: the quotient, rounded
  towards zero.\<close>

definition seconds :: "int \<Rightarrow> int" where
  "seconds t = sgn t * (\<bar>t\<bar> div 1000)"

subsection \<open>\<open>sendFile\<close>\<close>

text \<open>
  The file system, as \<open>java.io.File\<close> and \<open>java.io.FileInputStream\<close> show it: a file has
  its time of last modification in milliseconds and its content, and it can be opened for
  reading or not.  For a name without a file, \<open>lastModified()\<close> and \<open>length()\<close> are 0.
\<close>

record java_file =
  file_lastModified :: int
  file_readable :: bool
  file_content :: bytes

type_synonym filesystem = "js_string \<Rightarrow> java_file option"

text \<open>The extension of a file name: what follows its last dot.\<close>

fun after_last_dot :: "js_string \<Rightarrow> js_string option" where
  "after_last_dot [] = None"
| "after_last_dot (c # cs) =
    (case after_last_dot cs of
       Some e \<Rightarrow> Some e
     | None \<Rightarrow> if c = 0x2E then Some cs else None)"

definition extension :: "js_string \<Rightarrow> js_string" where
  "extension filename = (case after_last_dot filename of None \<Rightarrow> [] | Some e \<Rightarrow> e)"

text \<open>The loop \<open>while (remaining > 0)\<close>: each \<open>read\<close> fills the buffer of \<open>4096 * 16\<close>
  bytes from what is left of the file.\<close>

function send_loop :: "int \<Rightarrow> bytes \<Rightarrow> os_call list \<Rightarrow> os_call list" where
  "send_loop remaining left os_log =
    (if remaining > 0 then
       (let actual = min (length left) (4096 * 16)
        in if actual \<le> 0 then os_log
           else send_loop (remaining - int actual) (drop actual left)
                  (os_log @ [Bytes (take actual left)]))
     else os_log)"
  by pat_completeness auto
termination
  by (relation "measure (\<lambda>(remaining, left, os_log). length left)") auto

declare send_loop.simps [simp del]

text \<open>
  \<open>sendFile\<close>.  The table \<open>mimeTypes\<close> and \<open>Date.parse\<close> are parameters.  The result is
  what the call throws, if anything, and the response after it.  A Java exception in the
  \<open>try\<close> (here: the file cannot be opened) is caught and only printed.
\<close>

definition sendFile ::
  "(js_string \<Rightarrow> js_string option) \<Rightarrow> (js_string \<Rightarrow> int option) \<Rightarrow> filesystem \<Rightarrow>
   response \<Rightarrow> js_string \<Rightarrow> since \<Rightarrow> outcome \<times> response" where
  "sendFile mimeTypes Date_parse fs res filename modifiedSince =
    (let modified = (case fs filename of None \<Rightarrow> 0 | Some f \<Rightarrow> file_lastModified f);
         size = (case fs filename of None \<Rightarrow> 0 | Some f \<Rightarrow> int (length (file_content f)))
     in if modified = 0 then (Raised (Error ''404''), res)
        else
          (let res = res\<lparr>headers := set_header (headers res) (js ''Content-Type'')
                        (HStr (case mimeTypes (extension filename) of
                                 None \<Rightarrow> js ''text/plain''
                               | Some t \<Rightarrow> if t = [] then js ''text/plain'' else t))\<rparr>;
               modified = seconds modified;
               res = res\<lparr>headers := set_header (headers res) (js ''last-modified'')
                        (HGMT (modified * 1000))\<rparr>;
               not_modified =
                 (since_given modifiedSince \<and>
                  (case modifiedSince of
                     SinceString s \<Rightarrow>
                       (case Date_parse s of
                          None \<Rightarrow> False
                        | Some t \<Rightarrow> (of_int modified :: rat) < of_int t / 1000)
                   | SinceNumber n \<Rightarrow> modified < n
                   | SinceDate t \<Rightarrow> modified < t
                   | NoSince \<Rightarrow> False))
           in if not_modified then (Normal, sendHeaders (res\<lparr>status := 304\<rparr>))
              else
                (case fs filename of
                   Some f \<Rightarrow>
                     if file_readable f then
                       (let res = res\<lparr>status := 200\<rparr>;
                            res = res\<lparr>headers :=
                                    set_header (headers res) (js ''Content-Length'') (HNum size)\<rparr>;
                            res = sendHeaders res;
                            res = res\<lparr>res_os := res_os res @ [Flush]\<rparr>;
                            res = res\<lparr>res_os := send_loop size (file_content f) (res_os res)\<rparr>
                        in (Normal, res\<lparr>res_os := res_os res @ [Flush]\<rparr>))
                     else (Normal, res)
                 | None \<Rightarrow> (Normal, res))))"

subsection \<open>\<open>sendBytes\<close>\<close>

definition sendBytes ::
  "(js_string \<Rightarrow> int option) \<Rightarrow> response \<Rightarrow> bytes \<Rightarrow> js_string \<Rightarrow> int option \<Rightarrow> since \<Rightarrow>
   response" where
  "sendBytes Date_parse res bytes mimeType lastModified modifiedSince =
    (let size = int (length bytes);
         res = res\<lparr>headers := set_header (headers res) (js ''Content-Type'') (HStr mimeType)\<rparr>;
         given = (case lastModified of None \<Rightarrow> False | Some t \<Rightarrow> t \<noteq> 0);
         lastModified = (case lastModified of None \<Rightarrow> 0 | Some t \<Rightarrow> seconds t);
         res = (if given
                then res\<lparr>headers := set_header (headers res) (js ''last-modified'')
                             (HDate (lastModified * 1000))\<rparr>
                else res);
         not_modified =
           (given \<and> since_given modifiedSince \<and>
            (case (case modifiedSince of
                     SinceString s \<Rightarrow> Date_parse s
                   | SinceNumber n \<Rightarrow> Some n
                   | SinceDate t \<Rightarrow> Some t
                   | NoSince \<Rightarrow> None) of
               None \<Rightarrow> False
             | Some t \<Rightarrow> lastModified \<le> seconds t))
     in if not_modified then flush (sendHeaders (res\<lparr>status := 304\<rparr>))
        else
          (let res = res\<lparr>headers :=
                       set_header (headers res) (js ''Content-Length'') (HNum size)\<rparr>;
               res = flush (sendHeaders res);
               res = res\<lparr>res_os := res_os res @ [Bytes bytes]\<rparr>
           in res\<lparr>res_os := res_os res @ [Flush]\<rparr>))"

section \<open>The request (Request.js)\<close>

text \<open>
  Values of JavaScript as far as a request holds them: strings, numbers, and the objects
  and arrays that \<open>JSON.parse\<close> and the parts of a multipart body give.
\<close>

datatype js_value =
    JUndefined
  | JNull
  | JBool bool
  | JNum rat
  | JStr js_string
  | JArr "js_value list"
  | JObj "(js_string \<times> js_value) list"

text \<open>
  The members that the constructor sets.  An object used as a hash is a map from its
  property names; a property whose value is \<open>undefined\<close> is no property, which no use in
  the code tells apart.
\<close>

record request =
  queryParams :: "js_string \<rightharpoonup> js_string"
  uri :: js_string
  req_method :: js_string
  req_proto :: js_string
  req_headers :: "js_string \<rightharpoonup> js_string"
  host :: js_string
  port :: js_value
  remote_addr :: js_string
  req_cookies :: "js_string \<rightharpoonup> js_string"
  post :: js_value
  data :: "js_string \<rightharpoonup> js_value"
  gzip :: js_value

section \<open>Numbers from strings\<close>

text \<open>
  \<open>parseInt(s, radix)\<close>: leading white space is skipped, a sign is read, for radix 16 a
  prefix \<open>0x\<close> is skipped, and the longest run of digits of the radix is the number.
  With no digit the result is \<open>NaN\<close>, the value \<open>None\<close>.
\<close>

definition is_js_space :: "16 word \<Rightarrow> bool" where
  "is_js_space u \<longleftrightarrow>
    u \<in> set [0x09, 0x0A, 0x0B, 0x0C, 0x0D, 0x20, 0xA0, 0x1680, 0x2028, 0x2029, 0x202F, 0x205F,
              0x3000, 0xFEFF]
    \<or> (0x2000 \<le> u \<and> u \<le> 0x200A)"

definition digit_val :: "16 word \<Rightarrow> nat" where
  "digit_val u =
    (let n = unat u in
     if 48 \<le> n \<and> n \<le> 57 then n - 48
     else if 97 \<le> n \<and> n \<le> 122 then n - 87
     else if 65 \<le> n \<and> n \<le> 90 then n - 55
     else 36)"

definition parseInt :: "js_string \<Rightarrow> nat \<Rightarrow> int option" where
  "parseInt s radix =
    (let s1 = dropWhile is_js_space s;
         sgn = (if take 1 s1 = js ''-'' then - 1 else 1);
         s2 = (if take 1 s1 = js ''-'' \<or> take 1 s1 = js ''+'' then drop 1 s1 else s1);
         s3 = (if radix = 16 \<and> (take 2 s2 = js ''0x'' \<or> take 2 s2 = js ''0X'')
               then drop 2 s2 else s2);
         ds = takeWhile (\<lambda>c. digit_val c < radix) s3
     in if ds = [] then None
        else Some (sgn * foldl (\<lambda>n c. n * int radix + int (digit_val c)) 0 ds))"

section \<open>The support module: SHA-1 and base64\<close>

text \<open>
  Modelled from the spec: the \<open>support\<close> module (\<open>sha1\<close>, \<open>base64_encode\<close>, \<open>uuid\<close>) is
  not part of the sources.  The spec names the primitives as SHA-1 and base64.
  \<open>makeAccept\<close> treats the result of \<open>sha1\<close> as the digest in hexadecimal digits and gives
  \<open>base64_encode\<close> a string whose characters are the bytes to encode.  The digest is that
  of the bytes of the string in UTF-8.  SHA-1 works on 32-bit words, here integers with the
  reduction modulo \<open>2 ^ 32\<close> written out.
\<close>

definition rotl32 :: "nat \<Rightarrow> int \<Rightarrow> int" where
  "rotl32 n w = (w * 2 ^ n) mod 2 ^ 32 + w div 2 ^ (32 - n)"

definition sha1_length_bytes :: "int \<Rightarrow> bytes" where
  "sha1_length_bytes n =
    [char_of (n div 2 ^ 56), char_of (n div 2 ^ 48), char_of (n div 2 ^ 40),
     char_of (n div 2 ^ 32), char_of (n div 2 ^ 24), char_of (n div 2 ^ 16),
     char_of (n div 2 ^ 8), char_of n]"

definition sha1_pad :: "bytes \<Rightarrow> bytes" where
  "sha1_pad m =
    m @ [CHR 0x80] @ replicate ((119 - length m mod 64) mod 64) (CHR 0x00)
      @ sha1_length_bytes (8 * int (length m))"

fun be_words :: "bytes \<Rightarrow> int list" where
  "be_words (a # b # c # d # rest) =
     (of_char a * 2 ^ 24 + of_char b * 2 ^ 16 + of_char c * 2 ^ 8 + of_char d) # be_words rest"
| "be_words _ = []"

definition sha1_f :: "nat \<Rightarrow> int \<Rightarrow> int \<Rightarrow> int \<Rightarrow> int" where
  "sha1_f t b c d =
    (if t < 20 then (b AND c) OR ((2 ^ 32 - 1 - b) AND d)
     else if t < 40 then b XOR c XOR d
     else if t < 60 then (b AND c) OR (b AND d) OR (c AND d)
     else b XOR c XOR d)"

definition sha1_k :: "nat \<Rightarrow> int" where
  "sha1_k t =
    (if t < 20 then 0x5A827999 else if t < 40 then 0x6ED9EBA1
     else if t < 60 then 0x8F1BBCDC else 0xCA62C1D6)"

type_synonym sha1_state = "int \<times> int \<times> int \<times> int \<times> int"

text \<open>The 80 rounds of one block.  The list holds the sixteen most recent words of the
  message schedule; each round uses the oldest and appends the next.\<close>

fun sha1_rounds :: "nat \<Rightarrow> nat \<Rightarrow> int list \<Rightarrow> sha1_state \<Rightarrow> sha1_state" where
  "sha1_rounds 0 t ws st = st"
| "sha1_rounds (Suc n) t ws (a, b, c, d, e) =
     sha1_rounds n (t + 1)
       (tl ws @ [rotl32 1 (ws ! 13 XOR ws ! 8 XOR ws ! 2 XOR ws ! 0)])
       ((rotl32 5 a + sha1_f t b c d + e + sha1_k t + ws ! 0) mod 2 ^ 32, a, rotl32 30 b, c, d)"

fun sha1_add :: "sha1_state \<Rightarrow> sha1_state \<Rightarrow> sha1_state" where
  "sha1_add (h0, h1, h2, h3, h4) (a, b, c, d, e) =
    ((h0 + a) mod 2 ^ 32, (h1 + b) mod 2 ^ 32, (h2 + c) mod 2 ^ 32, (h3 + d) mod 2 ^ 32,
     (h4 + e) mod 2 ^ 32)"

definition sha1_block :: "sha1_state \<Rightarrow> bytes \<Rightarrow> sha1_state" where
  "sha1_block h blk = sha1_add h (sha1_rounds 80 0 (be_words blk) h)"

function sha1_blocks :: "sha1_state \<Rightarrow> bytes \<Rightarrow> sha1_state" where
  "sha1_blocks h m =
    (if length m < 64 then h else sha1_blocks (sha1_block h (take 64 m)) (drop 64 m))"
  by pat_completeness auto
termination
  by (relation "measure (\<lambda>(h, m). length m)") auto

declare sha1_blocks.simps [simp del]

definition word_bytes :: "int \<Rightarrow> bytes" where
  "word_bytes w =
    [char_of (w div 2 ^ 24), char_of (w div 2 ^ 16), char_of (w div 2 ^ 8), char_of w]"

fun sha1_output :: "sha1_state \<Rightarrow> bytes" where
  "sha1_output (h0, h1, h2, h3, h4) =
     word_bytes h0 @ word_bytes h1 @ word_bytes h2 @ word_bytes h3 @ word_bytes h4"

definition sha1_digest :: "bytes \<Rightarrow> bytes" where
  "sha1_digest m =
    sha1_output
      (sha1_blocks (0x67452301, 0xEFCDAB89, 0x98BADCFE, 0x10325476, 0xC3D2E1F0) (sha1_pad m))"

definition hex_digit :: "nat \<Rightarrow> char" where
  "hex_digit n = ''0123456789abcdef'' ! n"

definition hex_of :: "bytes \<Rightarrow> bytes" where
  "hex_of bs =
    concat (map (\<lambda>c. [hex_digit (of_char c div 16), hex_digit (of_char c mod 16)]) bs)"

definition sha1 :: "js_string \<Rightarrow> js_string" where
  "sha1 s = js (hex_of (sha1_digest (utf8 s)))"

definition base64_char :: "nat \<Rightarrow> char" where
  "base64_char n = ''ABCDEFGHIJKLMNOPQRSTUVWXYZabcdefghijklmnopqrstuvwxyz0123456789+/'' ! n"

fun base64 :: "bytes \<Rightarrow> string" where
  "base64 (a # b # c # rest) =
     [base64_char (of_char a div 4),
      base64_char ((of_char a mod 4) * 16 + of_char b div 16),
      base64_char ((of_char b mod 16) * 4 + of_char c div 64),
      base64_char (of_char c mod 64)] @ base64 rest"
| "base64 [a, b] =
     [base64_char (of_char a div 4),
      base64_char ((of_char a mod 4) * 16 + of_char b div 16),
      base64_char ((of_char b mod 16) * 4),
      CHR ''='']"
| "base64 [a] =
     [base64_char (of_char a div 4), base64_char ((of_char a mod 4) * 16), CHR ''='', CHR ''='']"
| "base64 [] = []"

definition base64_encode :: "js_string \<Rightarrow> js_string" where
  "base64_encode s = js (base64 (map (\<lambda>u. char_of (unat u)) s))"

section \<open>The WebSocket handshake (WebSocket.js)\<close>

definition GUID :: string where
  "GUID = ''258EAFA5-E914-47DA-95CA-C5AB0DC85B11''"

text \<open>The loop \<open>while (hex.length)\<close> of \<open>makeAccept\<close>, which turns the hexadecimal digest
  into characters.  \<open>String.fromCharCode(NaN)\<close> is the character 0.\<close>

function hex_to_binary :: "js_string \<Rightarrow> js_string \<Rightarrow> js_string" where
  "hex_to_binary hex buf =
    (if length hex = 0 then buf
     else hex_to_binary (drop 2 hex)
            (buf @ [fromCharCode (case parseInt (take 2 hex) 16 of None \<Rightarrow> 0 | Some n \<Rightarrow> n)]))"
  by pat_completeness auto
termination
  by (relation "measure (\<lambda>(hex, buf). length hex)") auto

declare hex_to_binary.simps [simp del]

text \<open>\<open>makeAccept(key)\<close>.  The key is a header of the request; a header that is missing
  is \<open>undefined\<close>, which \<open>key + GUID\<close> turns into the text \<open>undefined\<close>.\<close>

definition makeAccept :: "js_string option \<Rightarrow> js_string" where
  "makeAccept key =
    base64_encode
      (hex_to_binary (sha1 ((case key of None \<Rightarrow> js ''undefined'' | Some k \<Rightarrow> k) @ js GUID)) [])"

text \<open>
  \<open>new WebSocket(req, res)\<close>: the status 101 and the three headers are set, the headers are
  sent and the stream is flushed.  The identifier comes from \<open>uuid()\<close> of the support
  module, here the parameter \<open>new_uuid\<close>.  The listeners \<open>onmessage\<close> and \<open>onclose\<close> are
  functions that do nothing until the application replaces them.
\<close>

definition WebSocket :: "js_string \<Rightarrow> request \<Rightarrow> response \<Rightarrow> websocket \<times> response" where
  "WebSocket new_uuid req res =
    (let res1 = res\<lparr>status := 101\<rparr>;
         accept = makeAccept (req_headers req (js ''sec-websocket-key''));
         res2 = res1\<lparr>headers :=
                  set_header
                    (set_header
                       (set_header (headers res1) (js ''Upgrade'') (HStr (js ''websocket'')))
                       (js ''Connection'') (HStr (js ''upgrade'')))
                    (js ''Sec-WebSocket-Accept'') (HStr accept)\<rparr>;
         res3 = flush (sendHeaders res2)
     in (\<lparr>uuid = new_uuid, req_uri = uri req, onmessage = (\<lambda>m. None),
          fire_message = (\<lambda>m. None), onclose = None, fire_close = None\<rparr>, res3))"

text \<open>A file system with one file, \<open>a.txt\<close>, of five bytes, last modified at 5000 ms.\<close>

definition example_fs :: filesystem where
  "example_fs name =
    (if name = js ''a.txt''
     then Some \<lparr>file_lastModified = 5000, file_readable = True, file_content = ''hello''\<rparr>
     else None)"

section \<open>Properties of the frame codec\<close>










lemma plain_payload_result:
  "plain_payload n message inp =
    (if n \<le> length inp
     then Some (message @ map (\<lambda>c. fromCharCode (of_char c)) (take n inp), drop n inp)
     else None)"
proof (induction n arbitrary: message inp)
  case 0
  show ?case by simp
next
  case (Suc n)
  show ?case
  proof (cases inp)
    case Nil
    then show ?thesis by (simp add: readByte_def)
  next
    case (Cons c cs)
    then show ?thesis by (simp add: readByte_def Suc.IH)
  qed
qed


lemma utf8_ascii:
  "\<forall>u \<in> set s. unat u < 0x80 \<Longrightarrow> utf8 s = map (\<lambda>u. char_of (unat u)) s"
  by (induction s rule: utf8.induct) (auto simp: utf8_unit_def)

lemma rawSendMessage_70000:
  assumes "length s = 70000"
  shows "rawSendMessage enc [] s =
    [CHR 0x81, CHR 0x7f, CHR 0x00, CHR 0x01, CHR 0x11, CHR 0x70,
     CHR 0x00, CHR 0x01, CHR 0x11, CHR 0x70] @ enc s"
  using assms
  by (simp add: rawSendMessage_def os_write_def js_and_def js_sar_def Let_def char_of_def)

lemma frame_length_70000:
  "frame_length 0x7f
      ([CHR 0x00, CHR 0x01, CHR 0x11, CHR 0x70, CHR 0x00, CHR 0x01, CHR 0x11, CHR 0x70] @ inp)
      = Some (70000, inp)"
  by (simp add: frame_length_def readByte_def js_and_def js_or_def js_shl_def eval_nat_numeral)

lemma getMessage_70000:
  assumes "length s = 70000"
  shows "getMessage (rawSendMessage enc [] s @ rest) os =
    (if 70000 \<le> length (enc s @ rest)
     then (Some (map (\<lambda>c. fromCharCode (of_char c)) (take 70000 (enc s @ rest))),
           drop 70000 (enc s @ rest), os)
     else (None, [], os))"
proof -
  have body: "frame_body []
      ([CHR 0x7f, CHR 0x00, CHR 0x01, CHR 0x11, CHR 0x70,
        CHR 0x00, CHR 0x01, CHR 0x11, CHR 0x70] @ enc s @ rest) =
     (if 70000 \<le> length (enc s @ rest)
      then Some (70000, map (\<lambda>c. fromCharCode (of_char c)) (take 70000 (enc s @ rest)),
                 drop 70000 (enc s @ rest))
      else None)"
    using frame_length_70000 [of "enc s @ rest"]
    by (simp add: frame_body_def readByte_def frame_payload_def js_and_def plain_payload_result)
  have fin: "getMessage_loop m True r os = (Some m, r, os)" for m r
    by (subst getMessage_loop.simps) simp
  have "getMessage_loop [] False
      ([CHR 0x81, CHR 0x7f, CHR 0x00, CHR 0x01, CHR 0x11, CHR 0x70,
        CHR 0x00, CHR 0x01, CHR 0x11, CHR 0x70] @ enc s @ rest) os =
     (if 70000 \<le> length (enc s @ rest)
      then (Some (map (\<lambda>c. fromCharCode (of_char c)) (take 70000 (enc s @ rest))),
            drop 70000 (enc s @ rest), os)
      else (None, [], os))"
    apply (subst getMessage_loop.simps)
    using body
    apply (simp add: readByte_def js_and_def fin)
    done
  then show ?thesis
    using rawSendMessage_70000 [OF assms, of enc] by (simp add: getMessage_def)
qed

lemma fromCharCode_byte:
  assumes "unat u < 256"
  shows "fromCharCode (of_char (char_of (unat u))) = (u :: 16 word)"
proof -
  have "(of_char (char_of (unat u)) :: int) = int (of_char (char_of (unat u)))"
    by (simp only: of_nat_of_char)
  also have "\<dots> = int (unat u mod 256)"
    by (simp only: of_char_of)
  also have "\<dots> = int (unat u)"
    using assms by simp
  finally show ?thesis
    by (simp add: fromCharCode_def)
qed

text \<open>
  C4 (as amended).  Take a text payload of 70000 code units whose bytes, as
  \<open>toJavaByteArray\<close> gives them, are the payload itself when each byte is read as one
  character (ASCII text in the usual encodings).  The frame that \<open>rawSendMessage\<close> writes
  for it has the 64-bit length form, and \<open>getMessage\<close> reads back exactly the payload and
  leaves what follows the frame in the stream.
\<close>

theorem rawSendMessage_getMessage_roundtrip_70000:
  assumes "length s = 70000"
    and "map (\<lambda>c. fromCharCode (of_char c)) (toJavaByteArray s) = s"
  shows "getMessage (rawSendMessage toJavaByteArray [] s @ rest) os = (Some s, rest, os)"
proof -
  have "length (toJavaByteArray s) = 70000"
    using assms by (metis length_map)
  then show ?thesis
    using getMessage_70000 [OF assms(1), of toJavaByteArray rest os] assms(2) by simp
qed

theorem rawSendMessage_getMessage_roundtrip_70000_witness:
  "length (replicate 70000 (0x61 :: 16 word)) = 70000 \<and>
   map (\<lambda>c. fromCharCode (of_char c)) (utf8 (replicate 70000 0x61)) = replicate 70000 0x61 \<and>
   getMessage (rawSendMessage utf8 [] (replicate 70000 0x61)) []
     = (Some (replicate 70000 0x61), [], [])"
proof -
  have l: "length (replicate 70000 (0x61 :: 16 word)) = 70000"
    by simp
  have "utf8 (replicate 70000 0x61) =
      map (\<lambda>u. char_of (unat u)) (replicate 70000 (0x61 :: 16 word))"
    using utf8_ascii [of "replicate 70000 0x61"] by simp
  then have m: "map (\<lambda>c. fromCharCode (of_char c)) (utf8 (replicate 70000 0x61))
      = replicate 70000 0x61"
    using fromCharCode_byte [of "0x61 :: 16 word"] by simp
  show ?thesis
    using rawSendMessage_getMessage_roundtrip_70000
      [of "replicate 70000 0x61" utf8 "[]" "[]", OF l m] l m
    by simp
qed

lemma byte_not_wide: "fromCharCode (of_char c) \<noteq> (0x4F60 :: 16 word)"
proof
  assume "fromCharCode (of_char c) = (0x4F60 :: 16 word)"
  then have "uint (word_of_int (of_char c) :: 16 word) = uint (0x4F60 :: 16 word)"
    by (simp add: fromCharCode_def)
  moreover have "(of_char c :: int) < 256" "0 \<le> (of_char c :: int)"
    by (simp_all add: of_char_def) 
  ultimately show False
    by (simp add: uint_word_of_int take_bit_eq_mod)
qed

lemma wide_lost:
  "fst (getMessage (rawSendMessage enc [] (replicate 70000 0x4F60) @ rest) os)
     \<noteq> Some (replicate 70000 0x4F60)"
proof
  assume a: "fst (getMessage (rawSendMessage enc [] (replicate 70000 0x4F60) @ rest) os)
     = Some (replicate 70000 0x4F60)"
  let ?s = "replicate 70000 (0x4F60 :: 16 word)"
  let ?bs = "take 70000 (enc ?s @ rest)"
  have len: "length ?s = 70000" by simp
  from a getMessage_70000 [OF len, of enc rest os]
  have le: "70000 \<le> length (enc ?s @ rest)"
    and eq: "map (\<lambda>c. fromCharCode (of_char c)) ?bs = ?s"
    by (auto split: if_splits)
  from le have "?bs \<noteq> []" by auto
  then obtain c cs where "?bs = c # cs" by (cases ?bs) auto
  with eq have "map (\<lambda>c. fromCharCode (of_char c)) (c # cs) = ?s"
    by metis
  then have "fromCharCode (of_char c) = hd ?s"
    by (metis list.sel(1) list.simps(9))
  then show False using byte_not_wide [of c] by simp
qed

text \<open>
  C4 as stated fails.  The payload of 70000 times the character U+4F60 does not come back:
  the decoder makes one character of at most 255 from each byte it reads, whatever the
  byte encoding is (lemma \<open>wide_lost\<close>); here the encoding is UTF-8.
\<close>

theorem rawSendMessage_getMessage_wide_payload_lost:
  "fst (getMessage (rawSendMessage utf8 [] (replicate 70000 0x4F60)) [])
     \<noteq> Some (replicate 70000 0x4F60)"
  using wide_lost [of utf8 "[]" "[]"] by simp








section \<open>Properties of the message loop\<close>

lemma message_loop_registry:
  "message_loop c ws st = (r, st') \<Longrightarrow>
    webSockets st' = webSockets st \<and>
    (\<exists>new. events st' = events st @ new \<and>
       (\<forall>e \<in> set new. \<exists>m. e = Message m (webSockets st)))"
proof (induction c ws st rule: message_loop.induct)
  case (1 c ws st)
  obtain g i os where gm: "getMessage (is_bytes st) (os_bytes st) = (g, i, os)"
    by (cases "getMessage (is_bytes st) (os_bytes st)") auto
  show ?case
  proof (cases g)
    case None
    with gm "1.prems" show ?thesis
      by (subst (asm) message_loop.simps) auto
  next
    case (Some message)
    define st1 where "st1 = st\<lparr>is_bytes := i, os_bytes := os,
      events := events st @ [Message message (webSockets st)]\<rparr>"
    have g1: "(Some message, (i, os)) = getMessage (is_bytes st) (os_bytes st)"
      using gm Some by simp
    have ext: "webSockets st1 = webSockets st"
      "events st1 = events st @ [Message message (webSockets st)]"
      by (simp_all add: st1_def)
    have unfold: "message_loop c ws st =
      (case deliver ws message of
         Normal \<Rightarrow> message_loop c ws st1
       | Raised e \<Rightarrow>
           (case c e of None \<Rightarrow> message_loop c ws st1 | Some e' \<Rightarrow> (Raised e', st1)))"
      unfolding st1_def using gm Some by (subst message_loop.simps) (simp add: Let_def)
    have inner: "webSockets st' = webSockets st1 \<and>
        (\<exists>new. events st' = events st1 @ new \<and>
           (\<forall>e \<in> set new. \<exists>m. e = Message m (webSockets st1)))"
    proof (cases "deliver ws message")
      case Normal
      with unfold "1.prems" have "message_loop c ws st1 = (r, st')"
        by simp
      then show ?thesis
        by (rule "1.IH"(1) [OF g1 refl refl st1_def Normal])
    next
      case (Raised e)
      show ?thesis
      proof (cases "c e")
        case None
        with unfold Raised "1.prems" have "message_loop c ws st1 = (r, st')"
          by simp
        then show ?thesis
          by (rule "1.IH"(2) [OF g1 refl refl st1_def Raised None])
      next
        case (Some e')
        with unfold Raised "1.prems" have "st' = st1"
          by simp
        then show ?thesis by simp
      qed
    qed
    then obtain new where n: "webSockets st' = webSockets st"
      "events st' = events st @ Message message (webSockets st) # new"
      "\<forall>e \<in> set new. \<exists>m. e = Message m (webSockets st)"
      using ext by auto
    then show ?thesis
      by (intro conjI exI [of _ "Message message (webSockets st) # new"]) auto
  qed
qed

text \<open>
  C8.  \<open>run\<close> puts the WebSocket into the registry under its identifier before the
  message loop starts: every call of a message listener and the call of the close
  listeners see it registered.  However the loop ends (a close frame, a decode failure or
  the end of the stream, an exception that leaves the inner \<open>try\<close>) and whatever the close
  listeners throw, the registry after \<open>run\<close> is the registry before it without the
  identifier.  What a message listener throws is caught inside the loop.
\<close>

theorem run_removes_identifier:
  "webSockets (snd (run console_exception ws st)) = (webSockets st)(uuid ws := None) \<and>
   (\<exists>new. events (snd (run console_exception ws st)) =
        events st @ new @ [Close ((webSockets st)(uuid ws \<mapsto> ws))] \<and>
      (\<forall>e \<in> set new. \<exists>m. e = Message m ((webSockets st)(uuid ws \<mapsto> ws))))"
proof -
  define st1 where "st1 = st\<lparr>webSockets := (webSockets st)(uuid ws \<mapsto> ws)\<rparr>"
  obtain body st2 where ml: "message_loop console_exception ws st1 = (body, st2)"
    by (cases "message_loop console_exception ws st1") auto
  from message_loop_registry [OF ml] obtain new where
    r2: "webSockets st2 = (webSockets st)(uuid ws \<mapsto> ws)" and
    e2: "events st2 = events st @ new" and
    all: "\<forall>e \<in> set new. \<exists>m. e = Message m ((webSockets st)(uuid ws \<mapsto> ws))"
    by (auto simp: st1_def)
  have "snd (run console_exception ws st) = snd (close_and_remove ws st2)"
    using ml by (simp add: run_def st1_def Let_def split: prod.splits)
  then have "webSockets (snd (run console_exception ws st)) = (webSockets st)(uuid ws := None)"
    and "events (snd (run console_exception ws st)) =
        events st @ new @ [Close ((webSockets st)(uuid ws \<mapsto> ws))]"
    using r2 e2 by (simp_all add: close_and_remove_def Let_def)
  with all show ?thesis by blast
qed


theorem run_removes_identifier_witness:
  "fst (run (\<lambda>e. None)
         \<lparr>uuid = [0x75], req_uri = [], onmessage = (\<lambda>m. Some (Error ''listener'')),
          fire_message = (\<lambda>m. None), onclose = Some (Thrown ''closing''), fire_close = None\<rparr>
         \<lparr>is_bytes = [CHR 0x81, CHR 0x01, CHR ''a'', CHR 0x88], os_bytes = [],
          webSockets = Map.empty, events = []\<rparr>) = Raised (Thrown ''closing'') \<and>
   (\<exists>r. events (snd (run (\<lambda>e. None)
         \<lparr>uuid = [0x75], req_uri = [], onmessage = (\<lambda>m. Some (Error ''listener'')),
          fire_message = (\<lambda>m. None), onclose = Some (Thrown ''closing''), fire_close = None\<rparr>
         \<lparr>is_bytes = [CHR 0x81, CHR 0x01, CHR ''a'', CHR 0x88], os_bytes = [],
          webSockets = Map.empty, events = []\<rparr>)) = [Message [0x61] r, Close r] \<and>
        dom r = {[0x75]}) \<and>
   webSockets (snd (run (\<lambda>e. None)
         \<lparr>uuid = [0x75], req_uri = [], onmessage = (\<lambda>m. Some (Error ''listener'')),
          fire_message = (\<lambda>m. None), onclose = Some (Thrown ''closing''), fire_close = None\<rparr>
         \<lparr>is_bytes = [CHR 0x81, CHR 0x01, CHR ''a'', CHR 0x88], os_bytes = [],
          webSockets = Map.empty, events = []\<rparr>)) = Map.empty"
proof -
  define ws where "ws = \<lparr>uuid = [0x75 :: 16 word], req_uri = [],
    onmessage = (\<lambda>m. Some (Error ''listener'')), fire_message = (\<lambda>m. None),
    onclose = Some (Thrown ''closing''), fire_close = None\<rparr>"
  define st where "st = \<lparr>is_bytes = [CHR 0x81, CHR 0x01, CHR ''a'', CHR 0x88], os_bytes = [],
    webSockets = Map.empty, events = []\<rparr>"
  define reg where "reg = (Map.empty :: registry)([0x75] \<mapsto> ws)"
  have g1: "getMessage [CHR 0x81, CHR 0x01, CHR ''a'', CHR 0x88] [] = (Some [0x61], [CHR 0x88], [])"
    unfolding getMessage_def
    apply (subst getMessage_loop.simps)
    apply (simp add: readByte_def js_and_def frame_body_def frame_length_def frame_payload_def
        fromCharCode_def)
    apply (subst getMessage_loop.simps)
    apply simp
    done
  have g2: "getMessage [CHR 0x88] [] = (None, [], [])"
    unfolding getMessage_def
    by (subst getMessage_loop.simps) (simp add: readByte_def js_and_def)
  have loop: "message_loop (\<lambda>e. None) ws (st\<lparr>webSockets := reg\<rparr>) =
      (Normal, \<lparr>is_bytes = [], os_bytes = [], webSockets = reg, events = [Message [0x61] reg]\<rparr>)"
    apply (subst message_loop.simps)
    apply (simp add: st_def g1 deliver_def ws_def)
    apply (subst message_loop.simps)
    apply (simp add: g2)
    done
  have res: "run (\<lambda>e. None) ws st =
      (Raised (Thrown ''closing''),
       \<lparr>is_bytes = [], os_bytes = [], webSockets = reg([0x75] := None),
        events = [Message [0x61] reg, Close reg]\<rparr>)"
    using loop
    by (simp add: run_def close_and_remove_def finally_outcome_def Let_def reg_def st_def ws_def)
  have "dom reg = {[0x75]}"
    by (simp add: reg_def)
  then show ?thesis
    using run_removes_identifier [of "\<lambda>e. None" ws st] res
    unfolding ws_def st_def
    by (auto simp: reg_def)
qed

section \<open>Properties of \<open>sendFile\<close> and \<open>sendBytes\<close>\<close>

lemma send_loop_short:
  "0 < length bs \<Longrightarrow> length bs \<le> 65536 \<Longrightarrow>
   send_loop (int (length bs)) bs calls = calls @ [Bytes bs]"
  apply (subst send_loop.simps)
  apply (simp add: Let_def min_def)
  apply (subst send_loop.simps)
  apply simp
  done

lemma status_sendHeaders: "status (sendHeaders res) = status res"
  by (simp add: sendHeaders_def)

lemma sendFile_decision:
  assumes "fs filename = Some f" and "file_lastModified f \<noteq> 0" and "file_readable f"
    and "s \<noteq> []" and "Date_parse s = Some t"
  shows "status (snd (sendFile mimeTypes Date_parse fs res filename (SinceString s))) =
    (if seconds (file_lastModified f) * 1000 < t then 304 else 200)"
proof -
  define a where "a = seconds (file_lastModified f)"
  have "((of_int a :: rat) < of_int t / 1000) = ((of_int a :: rat) * 1000 < of_int t)"
    by (simp add: pos_less_divide_eq)
  also have "\<dots> = ((of_int (a * 1000) :: rat) < of_int t)"
    by simp
  also have "\<dots> = (a * 1000 < t)"
    by (rule of_int_less_iff)
  finally have "((of_int (seconds (file_lastModified f)) :: rat) < of_int t / 1000) =
      (seconds (file_lastModified f) * 1000 < t)"
    by (simp add: a_def)
  then show ?thesis
    using assms
    by (simp add: sendFile_def Let_def since_given_def status_sendHeaders)
qed

lemma sendBytes_decision:
  assumes "lm \<noteq> 0" and "s \<noteq> []" and "Date_parse s = Some t"
  shows "status (sendBytes Date_parse res bs mimeType (Some lm) (SinceString s)) =
    (if seconds lm \<le> seconds t then 304 else status res)"
  using assms
  by (simp add: sendBytes_def Let_def since_given_def status_sendHeaders flush_def)

text \<open>
  C3, at the input where the code departs from it.  The file \<open>a.txt\<close> was last modified
  at 5000 ms and \<open>modifiedSince\<close> is a date string for the same time.  The claim asks for
  status 304 and no body; \<open>sendFile\<close> tests \<open>modified < modifiedSince\<close>, so it answers with
  status 200, \<open>Content-Length: 5\<close> and the five bytes of the file.
\<close>

theorem sendFile_same_second_sends_file:
  "sendFile (\<lambda>e. None) (\<lambda>s. Some 5000) example_fs (Response [] (js ''HTTP/1.1''))
      (js ''a.txt'') (SinceString (js ''Thu, 01 Jan 1970 00:00:05 GMT'')) =
   (Normal,
    \<lparr>res_os = [StatusLine (js ''HTTP/1.1'') 200, DateLine,
               HeaderLine (js ''Content-Type'') (HStr (js ''text/plain'')),
               HeaderLine (js ''last-modified'') (HGMT 5000),
               HeaderLine (js ''Content-Length'') (HNum 5),
               Writeln [], Flush, Bytes ''hello'', Flush],
     headersSent = True, status = 200, contentLength = 0, cookies = None,
     headers = [(js ''Content-Type'', HStr (js ''text/plain'')),
                (js ''last-modified'', HGMT 5000),
                (js ''Content-Length'', HNum 5)],
     proto = js ''HTTP/1.1'', chunked = False\<rparr>)"
  using send_loop_short [of "''hello''"]
  by (simp add: sendFile_def example_fs_def Response_def Let_def seconds_def since_given_def
      sendHeaders_def js_def extension_def)

text \<open>
  C9, at the same times.  \<open>sendBytes\<close> tests \<open>lastModified <= modifiedSince\<close> and answers
  304 without a body, while \<open>sendFile\<close> sends the file with status 200: the two do not
  decide by the same condition when \<open>modifiedSince\<close> is the second of the last
  modification.
\<close>

theorem sendBytes_sendFile_differ_same_second:
  "status (sendBytes (\<lambda>s. Some 5000) (Response [] (js ''HTTP/1.1'')) ''hello'' (js ''text/plain'')
      (Some 5000) (SinceString (js ''Thu, 01 Jan 1970 00:00:05 GMT''))) = 304 \<and>
   res_os (sendBytes (\<lambda>s. Some 5000) (Response [] (js ''HTTP/1.1'')) ''hello'' (js ''text/plain'')
      (Some 5000) (SinceString (js ''Thu, 01 Jan 1970 00:00:05 GMT''))) =
     [StatusLine (js ''HTTP/1.1'') 304, DateLine,
      HeaderLine (js ''Content-Type'') (HStr (js ''text/plain'')),
      HeaderLine (js ''last-modified'') (HDate 5000), Writeln [], Flush] \<and>
   status (snd (sendFile (\<lambda>e. None) (\<lambda>s. Some 5000) example_fs (Response [] (js ''HTTP/1.1''))
      (js ''a.txt'') (SinceString (js ''Thu, 01 Jan 1970 00:00:05 GMT'')))) = 200 \<and>
   Bytes ''hello'' \<in> set (res_os (snd (sendFile (\<lambda>e. None) (\<lambda>s. Some 5000) example_fs
      (Response [] (js ''HTTP/1.1'')) (js ''a.txt'')
      (SinceString (js ''Thu, 01 Jan 1970 00:00:05 GMT'')))))"
  using send_loop_short [of "''hello''"]
  by (simp add: sendBytes_def sendFile_def example_fs_def Response_def Let_def seconds_def
      since_given_def sendHeaders_def flush_def js_def extension_def)

section \<open>Properties of the handshake\<close>

lemma unat_of_char_16: "unat (of_char c :: 16 word) = of_char c"
proof -
  have "(of_char c :: 16 word) = of_nat (of_char c)"
    by (simp only: of_nat_of_char)
  moreover have "(of_char c :: nat) < 2 ^ 16"
  proof -
    have "(of_char c :: nat) < 256" by simp
    also have "(256 :: nat) < 2 ^ 16" by simp
    finally show ?thesis .
  qed
  ultimately show ?thesis
    by (simp add: unat_of_nat)
qed

lemma low_bytes_of_chars: "map (\<lambda>u. char_of (unat u)) (js bs) = bs"
  by (induction bs) (simp_all add: js_def unat_of_char_16)

lemma hex_digit_cases:
  assumes "d < 16"
  shows "digit_val (of_char (hex_digit d)) = d \<and> \<not> is_js_space (of_char (hex_digit d)) \<and>
    (of_char (hex_digit d) :: 16 word) \<noteq> of_char CHR ''-'' \<and>
    (of_char (hex_digit d) :: 16 word) \<noteq> of_char CHR ''+'' \<and>
    (of_char (hex_digit d) :: 16 word) \<noteq> of_char CHR ''x'' \<and>
    (of_char (hex_digit d) :: 16 word) \<noteq> of_char CHR ''X''"
proof -
  from assms have "d \<in> {0, 1, 2, 3, 4, 5, 6, 7, 8, 9, 10, 11, 12, 13, 14, 15}"
    by simp presburger
  then show ?thesis
    by (auto simp: hex_digit_def digit_val_def is_js_space_def)
qed

lemma parseInt_hex_pair:
  assumes "a < 16" and "b < 16"
  shows "parseInt [of_char (hex_digit a), of_char (hex_digit b)] 16 = Some (int (a * 16 + b))"
  using hex_digit_cases [OF assms(1)] hex_digit_cases [OF assms(2)] assms
  by (simp add: parseInt_def Let_def js_def)

lemma parseInt_hex_byte:
  "parseInt [of_char (hex_digit (of_char c div 16)), of_char (hex_digit (of_char c mod 16))] 16
     = Some (of_char c)"
proof -
  have "(of_char c :: nat) < 256" by simp
  then have "(of_char c :: nat) div 16 < 16" by (simp add: less_mult_imp_div_less)
  moreover have "(of_char c :: nat) mod 16 < 16" by simp
  ultimately have "parseInt [of_char (hex_digit (of_char c div 16)), of_char (hex_digit (of_char c mod 16))] 16
      = Some (int (of_char c div 16 * 16 + of_char c mod 16))"
    by (rule parseInt_hex_pair)
  then show ?thesis by (simp add: of_nat_of_char)
qed

lemma js_Cons: "js (c # cs) = of_char c # js cs"
  by (simp add: js_def)

lemma js_Nil: "js [] = []"
  by (simp add: js_def)

lemma hex_of_Cons:
  "hex_of (c # bs) = hex_digit (of_char c div 16) # hex_digit (of_char c mod 16) # hex_of bs"
  by (simp add: hex_of_def)

lemma fromCharCode_of_char: "fromCharCode (of_char c) = (of_char c :: 16 word)"
proof -
  have "(of_char c :: int) = int (of_char c)"
    by (simp only: of_nat_of_char)
  then have "fromCharCode (of_char c) = (of_nat (of_char c) :: 16 word)"
    by (simp only: fromCharCode_def word_of_int_nat of_int_of_nat_eq)
  then show ?thesis
    by (simp only: of_nat_of_char)
qed

lemma hex_to_binary_unfold: "hex_to_binary (a # b # hex) buf = 
    (if length (a # b # hex) = 0 then buf
     else hex_to_binary (drop 2 (a # b # hex))
            (buf @ [fromCharCode (case parseInt (take 2 (a # b # hex)) 16 of None \<Rightarrow> 0 | Some n \<Rightarrow> n)]))"
  by (rule hex_to_binary.simps)

lemma hex_to_binary_step:
  "hex_to_binary (a # b # hex) buf =
     hex_to_binary hex
       (buf @ [fromCharCode (case parseInt [a, b] 16 of None \<Rightarrow> 0 | Some n \<Rightarrow> n)])"
  unfolding hex_to_binary_unfold by simp

lemma hex_to_binary_hex_of: "hex_to_binary (js (hex_of bs)) buf = buf @ js bs"
proof (induction bs arbitrary: buf)
  case Nil
  show ?case by (simp add: hex_to_binary.simps [of "[]"] hex_of_def js_def)
next
  case (Cons c bs)
  show ?case
    by (simp only: hex_of_Cons js_Cons hex_to_binary_step parseInt_hex_byte option.case
        fromCharCode_of_char Cons.IH append_assoc append_Cons append_Nil)
qed

lemma makeAccept_digest:
  "makeAccept (Some key) = js (base64 (sha1_digest (utf8 (key @ js GUID))))"
  by (simp add: makeAccept_def sha1_def hex_to_binary_hex_of base64_encode_def low_bytes_of_chars)

lemma makeAccept_digest_undefined:
  "makeAccept None = js (base64 (sha1_digest (utf8 (js ''undefined'' @ js GUID))))"
  by (simp add: makeAccept_def sha1_def hex_to_binary_hex_of base64_encode_def low_bytes_of_chars)

lemma utf8_js_ascii:
  assumes "\<forall>c \<in> set s. (of_char c :: nat) < 0x80"
  shows "utf8 (js s) = s"
proof -
  have "\<forall>u \<in> set (js s). unat u < 0x80"
    using assms by (auto simp: js_def unat_of_char_16)
  then have "utf8 (js s) = map (\<lambda>u. char_of (unat u)) (js s)"
    by (rule utf8_ascii)
  then show ?thesis
    by (simp only: low_bytes_of_chars)
qed

lemma js_append: "js (a @ b) = js a @ js b"
  by (simp add: js_def)

lemma utf8_sample:
  "utf8 (js ''dGhlIHNhbXBsZSBub25jZQ=='' @ js GUID) = ''dGhlIHNhbXBsZSBub25jZQ=='' @ GUID"
  unfolding js_append [symmetric]
  by (rule utf8_js_ascii) (simp add: GUID_def)

lemma sha1_blocks_Nil: "sha1_blocks h [] = h"
  by (simp add: sha1_blocks.simps [of h "[]"])

lemma sha1_blocks_append:
  "length blk = 64 \<Longrightarrow> sha1_blocks h (blk @ m) = sha1_blocks (sha1_block h blk) m"
  by (simp add: sha1_blocks.simps [of h "blk @ m"])

lemma sha1_blocks_single: "length blk = 64 \<Longrightarrow> sha1_blocks h blk = sha1_block h blk"
  using sha1_blocks_append [of blk h "[]"] by (simp add: sha1_blocks_Nil)

lemma sha1_rounds_numeral:
  "sha1_rounds (numeral k) t
     (w0 # w1 # w2 # w3 # w4 # w5 # w6 # w7 # w8 # w9 # w10 # w11 # w12 # w13 # w14 # w15 # ws)
     (a, b, c, d, e) =
     sha1_rounds (pred_numeral k) (t + 1)
       (w1 # w2 # w3 # w4 # w5 # w6 # w7 # w8 # w9 # w10 # w11 # w12 # w13 # w14 # w15 #
        ws @ [rotl32 1 (w13 XOR w8 XOR w2 XOR w0)])
       ((rotl32 5 a + sha1_f t b c d + e + sha1_k t + w0) mod 2 ^ 32, a, rotl32 30 b, c, d)"
  by (simp add: numeral_eq_Suc)

lemma replicate_numeral_unfold: "replicate (numeral k) x = x # replicate (pred_numeral k) x"
  by (simp add: numeral_eq_Suc)

lemma sha1_pad_sample:
  "sha1_pad (''dGhlIHNhbXBsZSBub25jZQ=='' @ GUID) =
    (''dGhlIHNhbXBsZSBub25jZQ==258EAFA5-E914-47DA-95CA-C5AB0DC85B11'' @ [CHR 0x80, CHR 0x00, CHR 0x00, CHR 0x00])
    @ (replicate 62 (CHR 0x00) @ [CHR 0x01, CHR 0xE0])"
  by (simp add: GUID_def sha1_pad_def sha1_length_bytes_def char_of_def replicate_numeral_unfold)

lemma sha1_block_sample_1:
  "sha1_block (0x67452301, 0xEFCDAB89, 0x98BADCFE, 0x10325476, 0xC3D2E1F0)
     (''dGhlIHNhbXBsZSBub25jZQ==258EAFA5-E914-47DA-95CA-C5AB0DC85B11'' @ [CHR 0x80, CHR 0x00, CHR 0x00, CHR 0x00])
    = (1540323111, 1931952490, 3195796473, 1517820024, 1581688034)"
  by (simp add: sha1_block_def sha1_rounds_numeral rotl32_def sha1_f_def sha1_k_def)

lemma sha1_block_sample_2:
  "sha1_block (1540323111, 1931952490, 3195796473, 1517820024, 1581688034)
     (replicate 62 (CHR 0x00) @ [CHR 0x01, CHR 0xE0])
    = (3011137324, 3227668246, 2432058886, 3476576581, 2998846698)"
  by (simp add: sha1_block_def sha1_rounds_numeral replicate_numeral_unfold rotl32_def
      sha1_f_def sha1_k_def)

lemma sha1_digest_sample:
  "sha1_digest (''dGhlIHNhbXBsZSBub25jZQ=='' @ GUID) =
    [CHR 0xb3, CHR 0x7a, CHR 0x4f, CHR 0x2c, CHR 0xc0, CHR 0x62, CHR 0x4f, CHR 0x16, CHR 0x90,
     CHR 0xf6, CHR 0x46, CHR 0x06, CHR 0xcf, CHR 0x38, CHR 0x59, CHR 0x45, CHR 0xb2, CHR 0xbe,
     CHR 0xc4, CHR 0xea]"
proof -
  have "sha1_blocks (0x67452301, 0xEFCDAB89, 0x98BADCFE, 0x10325476, 0xC3D2E1F0)
      (sha1_pad (''dGhlIHNhbXBsZSBub25jZQ=='' @ GUID))
    = (3011137324, 3227668246, 2432058886, 3476576581, 2998846698)"
    unfolding sha1_pad_sample
    apply (subst sha1_blocks_append)
     apply simp
    apply (subst sha1_block_sample_1)
    apply (subst sha1_blocks_single)
     apply simp
    apply (subst sha1_block_sample_2)
    apply (rule refl)
    done
  then show ?thesis
    by (simp add: sha1_digest_def word_bytes_def char_of_def)
qed

lemma base64_sample:
  "base64 [CHR 0xb3, CHR 0x7a, CHR 0x4f, CHR 0x2c, CHR 0xc0, CHR 0x62, CHR 0x4f, CHR 0x16, CHR 0x90,
     CHR 0xf6, CHR 0x46, CHR 0x06, CHR 0xcf, CHR 0x38, CHR 0x59, CHR 0x45, CHR 0xb2, CHR 0xbe,
     CHR 0xc4, CHR 0xea] = ''s3pPLMBiTxaQ9kYGzzhZRbK+xOo=''"
  by (simp add: base64_char_def)

lemma accept_sample:
  "makeAccept (Some (js ''dGhlIHNhbXBsZSBub25jZQ=='')) = js ''s3pPLMBiTxaQ9kYGzzhZRbK+xOo=''"
  by (simp only: makeAccept_digest utf8_sample sha1_digest_sample base64_sample)

lemma WebSocket_response:
  "res_os (snd (WebSocket u req (Response os_log p))) =
     os_log @ [StatusLine p 101, DateLine,
       HeaderLine (js ''Upgrade'') (HStr (js ''websocket'')),
       HeaderLine (js ''Connection'') (HStr (js ''upgrade'')),
       HeaderLine (js ''Sec-WebSocket-Accept'')
         (HStr (makeAccept (req_headers req (js ''sec-websocket-key'')))),
       Writeln [], Flush]"
  by (simp add: WebSocket_def Response_def sendHeaders_def flush_def Let_def js_def)

lemma req_headers_update: "req_headers (req\<lparr>req_headers := h\<rparr>) = h"
  by simp

text \<open>
  Claim C2.  The response that \<open>new WebSocket\<close> sends for an upgrade request with the key
  \<open>key\<close> has the status 101 and the header \<open>Sec-WebSocket-Accept\<close> with the base64
  encoding of the SHA-1 digest of the key followed by the GUID; for the key
  \<open>dGhlIHNhbXBsZSBub25jZQ==\<close> the header is \<open>s3pPLMBiTxaQ9kYGzzhZRbK+xOo=\<close>.
\<close>

theorem handshake_accept:
  "res_os (snd (WebSocket u
       (req\<lparr>req_headers := (req_headers req)(js ''sec-websocket-key'' \<mapsto> key)\<rparr>)
       (Response os_log p))) =
     os_log @ [StatusLine p 101, DateLine,
       HeaderLine (js ''Upgrade'') (HStr (js ''websocket'')),
       HeaderLine (js ''Connection'') (HStr (js ''upgrade'')),
       HeaderLine (js ''Sec-WebSocket-Accept'')
         (HStr (js (base64 (sha1_digest (utf8 (key @ js GUID)))))),
       Writeln [], Flush]
   \<and> res_os (snd (WebSocket u
       (req\<lparr>req_headers :=
          (req_headers req)(js ''sec-websocket-key'' \<mapsto> js ''dGhlIHNhbXBsZSBub25jZQ=='')\<rparr>)
       (Response os_log p))) =
     os_log @ [StatusLine p 101, DateLine,
       HeaderLine (js ''Upgrade'') (HStr (js ''websocket'')),
       HeaderLine (js ''Connection'') (HStr (js ''upgrade'')),
       HeaderLine (js ''Sec-WebSocket-Accept'') (HStr (js ''s3pPLMBiTxaQ9kYGzzhZRbK+xOo='')),
       Writeln [], Flush]"
  by (simp only: WebSocket_response req_headers_update fun_upd_same makeAccept_digest
      utf8_sample sha1_digest_sample base64_sample simp_thms)

end
